theory Spec2Isabelle
  imports Main "HOL-Library.AList" "HOL-Library.Multiset"
begin

section \<open>The orchestrator of indelve (src/indelve/main.py), embedded in HOL\<close>

text \<open>
  The class \<open>Indelve\<close> loads search providers by name, refreshes them and fans a query
  out to all of them. The providers, the \<open>bad\<close> module (warnings and exceptions) and
  \<open>utilities.isItemDict\<close> are not part of the file: the providers' modules and
  \<open>isItemDict\<close> are parameters of the model (the record \<open>env\<close>), the exception classes
  are the constructors of \<open>error\<close>.
\<close>

subsection \<open>Values, exceptions, effects\<close>

text \<open>
  The fragment of Python values that arguments are drawn from. \<open>PyStr\<close> is the class
  \<open>str\<close>, which is what both \<open>isinstance(query, str)\<close> and
  \<open>isinstance(provider, basestring)\<close> accept in this fragment.
\<close>

datatype pyval = PyNone | PyBool bool | PyInt int | PyStr string | PyList "pyval list"

text \<open>
  Exceptions as values. \<open>OtherError\<close> stands for every exception class that the file
  neither raises nor catches by name (a defect inside a provider, say).
\<close>

datatype error =
    TypeError
  | ValueError
  | KeyError
  | ImportError
  | AssertionError
  | NotImplementedError
  | ProviderLoadError string
  | NoProvidersError
  | OtherError string

text \<open>
  What the orchestrator does to the outside, in the order it does it: a call of
  \<open>import_module\<close> (with the dotted module name), a call of \<open>warn\<close> with
  \<open>ProviderLoadWarning\<close> (with the message), and a call of a provider's \<open>search\<close> or
  \<open>refresh\<close> (with the key of the instance in the table and the argument).
\<close>

datatype event =
    ImportAttempt string
  | Warn string
  | SearchCall string string
  | RefreshCall string bool

subsection \<open>Providers, modules and the environment\<close>

text \<open>An item is a dict; \<open>'v\<close> is the type of its values, ordered as Python orders them.\<close>

type_synonym 'v item = "string \<rightharpoonup> 'v"

text \<open>
  A provider instance is an object with the two methods the orchestrator calls. Both may
  raise and both may change the world \<open>'w\<close> (the provider's database, the file system).
\<close>

record ('w, 'v) provider =
  provider_search :: "string \<Rightarrow> 'w \<Rightarrow> (error + 'v item list) \<times> 'w"
  provider_refresh :: "bool \<Rightarrow> 'w \<Rightarrow> (error + unit) \<times> 'w"

text \<open>
  A provider module, as far as the orchestrator reads it: the constructor of its class
  \<open>Provider\<close> and the class attribute \<open>Provider.description\<close>.
\<close>

record ('w, 'v) provider_module =
  Provider :: "'w \<Rightarrow> (error + ('w, 'v) provider) \<times> 'w"
  description :: "string \<rightharpoonup> string"

text \<open>
  The environment: which modules \<open>import_module\<close> finds under which dotted name, the
  list \<open>__all__\<close> of the package \<open>indelve.providers\<close>, and \<open>utilities.isItemDict\<close>.
\<close>

record ('w, 'v) env =
  import_module :: "string \<Rightarrow> error + ('w, 'v) provider_module"
  providers_all :: "string list"
  isItemDict :: "'v item \<Rightarrow> bool"

text \<open>
  The state: the attribute \<open>self.providerInstances\<close> (a dict, kept as an association
  list in iteration order, new keys at the end), the world, and the trace of events.
  What is proved about \<open>search\<close> and \<open>refresh\<close> is proved for every table, so for
  every order in which a dict may iterate.
\<close>

record ('w, 'v) indelve =
  providerInstances :: "(string \<times> ('w, 'v) provider) list"
  world :: 'w
  trace :: "event list"

definition provider_path :: "string \<Rightarrow> string" where
  "provider_path provider = ''indelve.providers.'' @ provider"

definition emit :: "event \<Rightarrow> ('w, 'v) indelve \<Rightarrow> ('w, 'v) indelve" where
  "emit e s = s\<lparr>trace := trace s @ [e]\<rparr>"

subsection \<open>\<open>getProviderDescription\<close> and \<open>listProviders\<close>\<close>

definition getProviderDescription ::
  "('w, 'v) env \<Rightarrow> pyval \<Rightarrow> ('w, 'v) indelve \<Rightarrow> (error + (string \<rightharpoonup> string)) \<times> ('w, 'v) indelve"
where
  "getProviderDescription env provider s =
     (case provider of
        PyStr name \<Rightarrow>
          (let s1 = emit (ImportAttempt (provider_path name)) s in
           case import_module env (provider_path name) of
             Inl e \<Rightarrow> if e = ImportError then (Inl (ProviderLoadError name), s1) else (Inl e, s1)
           | Inr providerModule \<Rightarrow>
               (let descriptionDict = description providerModule in
                if descriptionDict ''short'' = None \<or> descriptionDict ''long'' = None
                then (Inl NotImplementedError, s1)
                else (Inr descriptionDict, s1)))
      | _ \<Rightarrow> (Inl ValueError, s))"

text \<open>The loop of \<open>listProviders\<close> that fills \<open>providerDict\<close>.\<close>

fun describe_loop ::
  "('w, 'v) env \<Rightarrow> string list \<Rightarrow> (string \<times> (string \<rightharpoonup> string)) list \<Rightarrow> ('w, 'v) indelve
     \<Rightarrow> (error + (string \<times> (string \<rightharpoonup> string)) list) \<times> ('w, 'v) indelve"
where
  "describe_loop env [] providerDict s = (Inr providerDict, s)"
| "describe_loop env (provider # rest) providerDict s =
     (case getProviderDescription env (PyStr provider) s of
        (Inl e, s1) \<Rightarrow> (Inl e, s1)
      | (Inr d, s1) \<Rightarrow> describe_loop env rest (AList.update provider d providerDict) s1)"

text \<open>
  \<open>listProviders\<close> returns a list or a dict. The import of the package's own
  \<open>__init__\<close> is taken to succeed; it yields \<open>providers_all\<close>.
\<close>

datatype listing =
    Names "string list"
  | Descriptions "(string \<times> (string \<rightharpoonup> string)) list"

definition listProviders ::
  "('w, 'v) env \<Rightarrow> bool \<Rightarrow> ('w, 'v) indelve \<Rightarrow> (error + listing) \<times> ('w, 'v) indelve"
where
  "listProviders env descriptions s =
     (let s1 = emit (ImportAttempt (provider_path ''__init__'')) s;
          providerList = providers_all env in
      if \<not> descriptions then (Inr (Names providerList), s1)
      else (case describe_loop env providerList [] s1 of
              (Inl e, s2) \<Rightarrow> (Inl e, s2)
            | (Inr providerDict, s2) \<Rightarrow> (Inr (Descriptions providerDict), s2)))"

subsection \<open>\<open>__init__\<close>\<close>

text \<open>The loop over \<open>providers\<close>; \<open>"indelve.providers." + provider\<close> raises on a non-string.\<close>

fun load_loop ::
  "('w, 'v) env \<Rightarrow> pyval list \<Rightarrow> ('w, 'v) indelve \<Rightarrow> (error + unit) \<times> ('w, 'v) indelve"
where
  "load_loop env [] s = (Inr (), s)"
| "load_loop env (PyStr name # rest) s =
     (let s1 = emit (ImportAttempt (provider_path name)) s in
      case import_module env (provider_path name) of
        Inl e \<Rightarrow>
          if e = ImportError \<or> e = KeyError then load_loop env rest (emit (Warn name) s1)
          else (Inl e, s1)
      | Inr providerModule \<Rightarrow>
          (case Provider providerModule (world s1) of
             (Inl e, w) \<Rightarrow> (Inl e, s1\<lparr>world := w\<rparr>)
           | (Inr inst, w) \<Rightarrow>
               load_loop env rest
                 (s1\<lparr>world := w,
                     providerInstances := AList.update name inst (providerInstances s1)\<rparr>)))"
| "load_loop env (other # rest) s = (Inl TypeError, s)"

text \<open>From line 56 on: the empty table, the loop, the check that something was loaded.\<close>

definition init_body ::
  "('w, 'v) env \<Rightarrow> pyval list \<Rightarrow> ('w, 'v) indelve \<Rightarrow> (error + unit) \<times> ('w, 'v) indelve"
where
  "init_body env providers s =
     (case load_loop env providers (s\<lparr>providerInstances := []\<rparr>) of
        (Inl e, s1) \<Rightarrow> (Inl e, s1)
      | (Inr u, s1) \<Rightarrow>
          if length (providerInstances s1) = 0 then (Inl NoProvidersError, s1)
          else (Inr (), s1))"

text \<open>What \<open>for provider in providers\<close> iterates when \<open>providers\<close> came from \<open>listProviders\<close>.\<close>

fun listing_iter :: "listing \<Rightarrow> pyval list" where
  "listing_iter (Names xs) = map PyStr xs"
| "listing_iter (Descriptions d) = map (PyStr \<circ> fst) d"

definition init ::
  "('w, 'v) env \<Rightarrow> pyval \<Rightarrow> ('w, 'v) indelve \<Rightarrow> (error + unit) \<times> ('w, 'v) indelve"
where
  "init env providers s =
     (case providers of
        PyNone \<Rightarrow>
          (case listProviders env False s of
             (Inl e, s1) \<Rightarrow> (Inl e, s1)
           | (Inr l, s1) \<Rightarrow> init_body env (listing_iter l) s1)
      | PyList xs \<Rightarrow> init_body env xs s
      | _ \<Rightarrow> (Inl TypeError, s))"

subsection \<open>\<open>refresh\<close>\<close>

fun refresh_loop ::
  "bool \<Rightarrow> (string \<times> ('w, 'v) provider) list \<Rightarrow> ('w, 'v) indelve \<Rightarrow> (error + unit) \<times> ('w, 'v) indelve"
where
  "refresh_loop force [] s = (Inr (), s)"
| "refresh_loop force ((name, p) # rest) s =
     (let s1 = emit (RefreshCall name force) s in
      case provider_refresh p force (world s1) of
        (Inl e, w) \<Rightarrow> (Inl e, s1\<lparr>world := w\<rparr>)
      | (Inr u, w) \<Rightarrow> refresh_loop force rest (s1\<lparr>world := w\<rparr>))"

definition refresh ::
  "bool \<Rightarrow> ('w, 'v) indelve \<Rightarrow> (error + unit) \<times> ('w, 'v) indelve"
where
  "refresh force s = refresh_loop force (providerInstances s) s"

subsection \<open>\<open>search\<close>\<close>

text \<open>
  The loop over the table. After a provider has answered, the assertion runs over
  \<open>items\<close>, the list collected so far, and only then \<open>results\<close> is appended.
\<close>

fun search_loop ::
  "('w, 'v) env \<Rightarrow> string \<Rightarrow> (string \<times> ('w, 'v) provider) list \<Rightarrow> 'v item list
     \<Rightarrow> ('w, 'v) indelve \<Rightarrow> (error + 'v item list) \<times> ('w, 'v) indelve"
where
  "search_loop env query [] items s = (Inr items, s)"
| "search_loop env query ((name, p) # rest) items s =
     (let s1 = emit (SearchCall name query) s in
      case provider_search p query (world s1) of
        (Inl e, w) \<Rightarrow>
          if e = ValueError then search_loop env query rest items (s1\<lparr>world := w\<rparr>)
          else (Inl e, s1\<lparr>world := w\<rparr>)
      | (Inr results, w) \<Rightarrow>
          if list_all (isItemDict env) items
          then search_loop env query rest (items @ results) (s1\<lparr>world := w\<rparr>)
          else (Inl AssertionError, s1\<lparr>world := w\<rparr>))"

text \<open>
  \<open>items.sort(key=lambda a: a["relevance"])\<close>: the key of every item is computed first
  (a missing key raises), then the list is sorted, stably, by ascending key.
\<close>

definition relevance :: "'v item \<Rightarrow> 'v" where
  "relevance a = the (a ''relevance'')"

definition sort_items :: "('v::linorder) item list \<Rightarrow> error + 'v item list" where
  "sort_items items =
     (if list_all (\<lambda>a. a ''relevance'' \<noteq> None) items then Inr (sort_key relevance items)
      else Inl KeyError)"

definition search ::
  "('w, 'v::linorder) env \<Rightarrow> pyval \<Rightarrow> ('w, 'v) indelve \<Rightarrow> (error + 'v item list) \<times> ('w, 'v) indelve"
where
  "search env query s =
     (case query of
        PyStr q \<Rightarrow>
          if length q = 0 then (Inl ValueError, s)
          else (case search_loop env q (providerInstances s) [] s of
                  (Inl e, s1) \<Rightarrow> (Inl e, s1)
                | (Inr items, s1) \<Rightarrow> (sort_items items, s1))
      | _ \<Rightarrow> (Inl TypeError, s))"

subsection \<open>Notions the properties are stated with\<close>

text \<open>\<open>isinstance(query, str)\<close>.\<close>

fun isinstance_str :: "pyval \<Rightarrow> bool" where
  "isinstance_str (PyStr q) = True"
| "isinstance_str other = False"

text \<open>
  What the providers of a table answer to a query when they are called one after the
  other, in the table's order, each in the world the one before left.
\<close>

fun provider_outcomes ::
  "string \<Rightarrow> (string \<times> ('w, 'v) provider) list \<Rightarrow> 'w \<Rightarrow> (error + 'v item list) list"
where
  "provider_outcomes query [] w = []"
| "provider_outcomes query ((name, p) # rest) w =
     (case provider_search p query w of (r, w1) \<Rightarrow> r # provider_outcomes query rest w1)"

text \<open>The items of an answer (an exception has none), and of all answers, concatenated.\<close>

fun answer_items :: "error + 'v item list \<Rightarrow> 'v item list" where
  "answer_items (Inl e) = []"
| "answer_items (Inr results) = results"

definition result_items :: "(error + 'v item list) list \<Rightarrow> 'v item list" where
  "result_items outcomes = concat (map answer_items outcomes)"

text \<open>
  An answer within the provider contract: the provider raised \<open>ValueError\<close>, or it
  returned items that pass \<open>isItemDict\<close> and have the key \<open>relevance\<close>.
\<close>

fun conforming_answer :: "('w, 'v) env \<Rightarrow> error + 'v item list \<Rightarrow> bool" where
  "conforming_answer env (Inl e) = (e = ValueError)"
| "conforming_answer env (Inr results) =
     list_all (\<lambda>a. isItemDict env a \<and> a ''relevance'' \<noteq> None) results"

text \<open>An identifier is importable when \<open>import_module\<close> finds its module.\<close>

fun importable :: "('w, 'v) env \<Rightarrow> string \<Rightarrow> bool" where
  "importable env name =
     (case import_module env (provider_path name) of Inl e \<Rightarrow> False | Inr providerModule \<Rightarrow> True)"

text \<open>The warnings among the events of a trace.\<close>

fun is_warning :: "event \<Rightarrow> bool" where
  "is_warning (Warn message) = True"
| "is_warning other = False"

subsection \<open>Stub providers, for concrete runs\<close>

text \<open>
  A stub answers every query with the same answer and counts its refreshes in the world.
  \<open>P1\<close> returns items of relevance 3 and 1, \<open>P2\<close> an item of relevance 2, \<open>P3\<close> rejects
  every query. In \<open>stub_env\<close> the modules \<open>p1\<close> and \<open>p2\<close> exist and nothing else does.
\<close>

definition stub_provider :: "(error + int item list) \<Rightarrow> (nat, int) provider" where
  "stub_provider answer =
     \<lparr>provider_search = (\<lambda>query w. (answer, w)),
      provider_refresh = (\<lambda>force w. (Inr (), Suc w))\<rparr>"

definition stub_module :: "(error + int item list) \<Rightarrow> (nat, int) provider_module" where
  "stub_module answer =
     \<lparr>Provider = (\<lambda>w. (Inr (stub_provider answer), w)),
      description = [''short'' \<mapsto> ''stub'', ''long'' \<mapsto> ''a stub provider'']\<rparr>"

definition P1 :: "(nat, int) provider" where
  "P1 = stub_provider (Inr [[''relevance'' \<mapsto> 3], [''relevance'' \<mapsto> 1]])"

definition P2 :: "(nat, int) provider" where
  "P2 = stub_provider (Inr [[''relevance'' \<mapsto> 2]])"

definition P3 :: "(nat, int) provider" where
  "P3 = stub_provider (Inl ValueError)"

definition stub_env :: "(nat, int) env" where
  "stub_env =
     \<lparr>import_module = (\<lambda>name.
        if name = provider_path ''p1'' then Inr (stub_module (Inr [[''relevance'' \<mapsto> 3], [''relevance'' \<mapsto> 1]]))
        else if name = provider_path ''p2'' then Inr (stub_module (Inr [[''relevance'' \<mapsto> 2]]))
        else Inl ImportError),
      providers_all = [''p1'', ''ghost'', ''p2''],
      isItemDict = (\<lambda>a. a ''relevance'' \<noteq> None)\<rparr>"

definition stub_state :: "(string \<times> (nat, int) provider) list \<Rightarrow> (nat, int) indelve" where
  "stub_state tbl = \<lparr>providerInstances = tbl, world = 0, trace = []\<rparr>"

text \<open>
  \<open>faulty_env\<close> is \<open>stub_env\<close> with two defective modules added: the constructor of
  \<open>ctorfail\<close> raises, and the import of \<open>broken\<close> raises an exception that is neither
  \<open>ImportError\<close> nor \<open>KeyError\<close>.
\<close>

definition faulty_env :: "(nat, int) env" where
  "faulty_env =
     stub_env\<lparr>import_module := (\<lambda>name.
        if name = provider_path ''ctorfail''
        then Inr \<lparr>Provider = (\<lambda>w. (Inl (OtherError ''RuntimeError''), w)),
                  description = [''short'' \<mapsto> ''stub'', ''long'' \<mapsto> ''a stub provider'']\<rparr>
        else if name = provider_path ''broken'' then Inl (OtherError ''SyntaxError'')
        else import_module stub_env name)\<rparr>"

section \<open>Properties\<close>

lemma emit_simps [simp]:
  "providerInstances (emit e s) = providerInstances s"
  "world (emit e s) = world s"
  "trace (emit e s) = trace s @ [e]"
  by (simp_all add: emit_def)

lemma refresh_loop_table:
  "providerInstances (snd (refresh_loop force tbl s)) = providerInstances s"
  by (induction force tbl s rule: refresh_loop.induct)
     (simp_all add: Let_def split: prod.splits sum.splits)

lemma search_loop_table:
  "providerInstances (snd (search_loop env q tbl items s)) = providerInstances s"
  by (induction env q tbl items s rule: search_loop.induct)
     (simp_all add: Let_def split: prod.splits sum.splits)

text \<open>
  C9: neither \<open>refresh\<close> (whatever \<open>force\<close>) nor \<open>search\<close> (whatever the query, valid or
  not, and however the call ends) changes the instance table: no entry is added, removed
  or replaced.
\<close>

theorem instance_table_fixed:
  "providerInstances (snd (refresh force s)) = providerInstances s \<and>
   providerInstances (snd (search env query s)) = providerInstances s"
proof
  show "providerInstances (snd (refresh force s)) = providerInstances s"
    by (simp add: refresh_def refresh_loop_table)
next
  have "search_loop env q (providerInstances s) [] s = (r, s1) \<Longrightarrow> providerInstances s1 = providerInstances s" for q r s1
    using search_loop_table [of env q "providerInstances s" "[]" s] by simp
  then show "providerInstances (snd (search env query s)) = providerInstances s"
    by (cases query) (auto simp: search_def split: prod.splits sum.splits)
qed

text \<open>
  C4: \<open>search\<close> with a query that is not a string raises \<open>TypeError\<close>, and with the
  empty string \<open>ValueError\<close>; in both cases the state is the one before the call, so the
  trace has no new \<open>SearchCall\<close> and the world is untouched: no provider was contacted.
\<close>

theorem search_rejects_bad_query:
  "(\<not> isinstance_str query \<longrightarrow> search env query s = (Inl TypeError, s)) \<and>
   search env (PyStr []) s = (Inl ValueError, s)"
  by (cases query) (simp_all add: search_def)

theorem search_rejects_bad_query_witness:
  "\<not> isinstance_str (PyInt 7) \<and>
   search stub_env (PyInt 7) (stub_state [(''p1'', P1)]) = (Inl TypeError, stub_state [(''p1'', P1)]) \<and>
   search stub_env (PyStr []) (stub_state [(''p1'', P1)]) = (Inl ValueError, stub_state [(''p1'', P1)])"
  using search_rejects_bad_query [of "PyInt 7" stub_env "stub_state [(''p1'', P1)]"] by simp

lemma search_loop_items:
  "search_loop env q tbl acc s = (Inr items, s1) \<Longrightarrow>
   items = acc @ result_items (provider_outcomes q tbl (world s)) \<and>
   trace s1 = trace s @ map (\<lambda>(name, p). SearchCall name q) tbl"
proof (induction env q tbl acc s rule: search_loop.induct)
  case (1 env query items s)
  then show ?case by (simp add: result_items_def)
next
  case (2 env query name p rest items s)
  then show ?case
    by (auto simp: Let_def result_items_def split: prod.splits sum.splits if_splits)
qed

lemma list_all_conjD:
  "list_all (\<lambda>a. P a \<and> Q a) xs \<Longrightarrow> list_all P xs \<and> list_all Q xs"
  by (induction xs) auto

lemma search_loop_conforming:
  "list_all (conforming_answer env) (provider_outcomes q tbl (world s)) \<Longrightarrow>
   list_all (isItemDict env) acc \<Longrightarrow>
   \<exists>s1. search_loop env q tbl acc s = (Inr (acc @ result_items (provider_outcomes q tbl (world s))), s1)"
proof (induction tbl arbitrary: acc s)
  case Nil
  then show ?case by (simp add: result_items_def)
next
  case (Cons entry rest)
  obtain name p where entry: "entry = (name, p)" by (cases entry)
  obtain r w where call: "provider_search p q (world s) = (r, w)"
    by (cases "provider_search p q (world s)")
  let ?s1 = "(emit (SearchCall name q) s)\<lparr>world := w\<rparr>"
  have w: "world ?s1 = w" by simp
  from Cons.prems(1) entry call have conf_r: "conforming_answer env r"
    and conf_rest: "list_all (conforming_answer env) (provider_outcomes q rest (world ?s1))"
    by simp_all
  show ?case
  proof (cases r)
    case (Inl e)
    with conf_r have e: "e = ValueError" by simp
    from Cons.IH [OF conf_rest Cons.prems(2)] obtain s2 where
      "search_loop env q rest acc ?s1 = (Inr (acc @ result_items (provider_outcomes q rest w)), s2)"
      by auto
    with entry call Inl e show ?thesis
      by (simp add: Let_def result_items_def)
  next
    case (Inr results)
    with conf_r have "list_all (isItemDict env) results"
      using list_all_conjD [of "isItemDict env" _ results] by simp
    with Cons.prems(2) have "list_all (isItemDict env) (acc @ results)" by simp
    from Cons.IH [OF conf_rest this] obtain s2 where
      "search_loop env q rest (acc @ results) ?s1 =
         (Inr ((acc @ results) @ result_items (provider_outcomes q rest w)), s2)"
      by auto
    with entry call Inr Cons.prems(2) show ?thesis
      by (simp add: Let_def result_items_def)
  qed
qed

lemma sort_items_conforming:
  "list_all (conforming_answer env) outcomes \<Longrightarrow>
   sort_items (result_items outcomes) = Inr (sort_key relevance (result_items outcomes))"
proof -
  assume "list_all (conforming_answer env) outcomes"
  then have "list_all (\<lambda>a. a ''relevance'' \<noteq> None) (result_items outcomes)"
  proof (induction outcomes)
    case Nil
    then show ?case by (simp add: result_items_def)
  next
    case (Cons r rest)
    then show ?case
      using list_all_conjD [of "isItemDict env" "\<lambda>a. a ''relevance'' \<noteq> None"]
      by (cases r) (simp_all add: result_items_def)
  qed
  then show ?thesis by (simp add: sort_items_def)
qed

lemma search_conforming:
  assumes "q \<noteq> []"
    and "list_all (conforming_answer env) (provider_outcomes q (providerInstances s) (world s))"
  shows "\<exists>s1. search env (PyStr q) s =
           (Inr (sort_key relevance (result_items (provider_outcomes q (providerInstances s) (world s)))), s1) \<and>
         trace s1 = trace s @ map (\<lambda>(name, p). SearchCall name q) (providerInstances s)"
proof -
  from search_loop_conforming [OF assms(2), of "[]"] obtain s1 where
    loop: "search_loop env q (providerInstances s) [] s =
       (Inr (result_items (provider_outcomes q (providerInstances s) (world s))), s1)"
    by auto
  from search_loop_items [OF loop] have "trace s1 = trace s @ map (\<lambda>(name, p). SearchCall name q) (providerInstances s)"
    by simp
  with loop assms(1) sort_items_conforming [OF assms(2)] show ?thesis
    by (simp add: search_def)
qed

lemma search_returned:
  assumes "fst (search env (PyStr q) s) = Inr xs"
  shows "xs = sort_key relevance (result_items (provider_outcomes q (providerInstances s) (world s)))"
proof -
  from assms have q: "q \<noteq> []" by (auto simp: search_def)
  obtain r s1 where loop: "search_loop env q (providerInstances s) [] s = (r, s1)"
    by (cases "search_loop env q (providerInstances s) [] s")
  with assms q obtain items where r: "r = Inr items" and sorted: "sort_items items = Inr xs"
    by (cases r) (auto simp: search_def)
  from search_loop_items [of env q "providerInstances s" "[]" s items s1] loop r
  have "items = result_items (provider_outcomes q (providerInstances s) (world s))" by simp
  with sorted show ?thesis by (auto simp: sort_items_def split: if_splits)
qed

text \<open>
  C1: for a non-empty string query, whenever \<open>search\<close> returns, it returns the
  concatenation of the providers' result items (in the table's order) sorted, stably, by
  ascending \<open>relevance\<close>; and it does return when every provider answers within the
  contract. The witness is the example of the specification: relevance 3 and 1 from the
  first provider and 2 from the second come back as 1, 2, 3.
\<close>

theorem search_sorted_concatenation:
  assumes "q \<noteq> []"
  shows "(list_all (conforming_answer env) (provider_outcomes q (providerInstances s) (world s))
            \<longrightarrow> (\<exists>xs. fst (search env (PyStr q) s) = Inr xs)) \<and>
         (\<forall>xs. fst (search env (PyStr q) s) = Inr xs \<longrightarrow>
            xs = sort_key relevance (result_items (provider_outcomes q (providerInstances s) (world s))) \<and>
            sorted (map relevance xs) \<and>
            mset xs = mset (result_items (provider_outcomes q (providerInstances s) (world s))))"
proof (intro conjI impI allI)
  assume "list_all (conforming_answer env) (provider_outcomes q (providerInstances s) (world s))"
  from search_conforming [OF assms this] show "\<exists>xs. fst (search env (PyStr q) s) = Inr xs"
    by auto
next
  fix xs assume ret: "fst (search env (PyStr q) s) = Inr xs"
  from search_returned [OF ret]
  show "xs = sort_key relevance (result_items (provider_outcomes q (providerInstances s) (world s)))" .
  then show "sorted (map relevance xs)" by simp
  from search_returned [OF ret]
  show "mset xs = mset (result_items (provider_outcomes q (providerInstances s) (world s)))" by simp
qed

theorem search_sorted_concatenation_witness:
  "''firefox'' \<noteq> [] \<and>
   list_all (conforming_answer stub_env)
     (provider_outcomes ''firefox'' (providerInstances (stub_state [(''p1'', P1), (''p2'', P2)]))
        (world (stub_state [(''p1'', P1), (''p2'', P2)]))) \<and>
   fst (search stub_env (PyStr ''firefox'') (stub_state [(''p1'', P1), (''p2'', P2)])) =
     Inr [[''relevance'' \<mapsto> 1], [''relevance'' \<mapsto> 2], [''relevance'' \<mapsto> 3]]"
proof -
  let ?s = "stub_state [(''p1'', P1), (''p2'', P2)]"
  have ne: "''firefox'' \<noteq> []" by simp
  have out: "provider_outcomes ''firefox'' (providerInstances ?s) (world ?s) =
      [Inr [[''relevance'' \<mapsto> 3], [''relevance'' \<mapsto> 1]], Inr [[''relevance'' \<mapsto> 2]]]"
    by (simp add: stub_state_def P1_def P2_def stub_provider_def)
  have conf: "list_all (conforming_answer stub_env) (provider_outcomes ''firefox'' (providerInstances ?s) (world ?s))"
    unfolding out by (simp add: stub_env_def)
  have sorted: "sort_key relevance (result_items (provider_outcomes ''firefox'' (providerInstances ?s) (world ?s))) =
      [[''relevance'' \<mapsto> 1], [''relevance'' \<mapsto> 2], [''relevance'' \<mapsto> (3::int)]]"
    unfolding out by (simp add: result_items_def relevance_def)
  from search_sorted_concatenation [OF ne, of stub_env ?s] conf
  have "fst (search stub_env (PyStr ''firefox'') ?s) =
      Inr (sort_key relevance (result_items (provider_outcomes ''firefox'' (providerInstances ?s) (world ?s))))"
    by blast
  with ne conf sorted show ?thesis by simp
qed

lemma result_items_skip:
  "result_items (before @ Inl e # after) = result_items (before @ after)"
  by (simp add: result_items_def)

lemma answer_in_result_items:
  "Inr results \<in> set outcomes \<Longrightarrow> set results \<subseteq> set (result_items outcomes)"
  by (induction outcomes) (auto simp: result_items_def)

text \<open>
  C5: let every provider answer a non-empty string query within the contract, and let one
  of them raise \<open>ValueError\<close>. Then \<open>search\<close> returns; every provider of the table was
  called, those after the failing one included; the result is the sorted concatenation of
  the other providers' answers, so the failing provider contributes no item and every
  item of every other provider is in the result.
\<close>

theorem search_skips_invalid_input:
  assumes "q \<noteq> []"
    and "list_all (conforming_answer env) (provider_outcomes q (providerInstances s) (world s))"
    and "provider_outcomes q (providerInstances s) (world s) = before @ Inl ValueError # after"
  shows "\<exists>xs s1. search env (PyStr q) s = (Inr xs, s1) \<and>
           trace s1 = trace s @ map (\<lambda>(name, p). SearchCall name q) (providerInstances s) \<and>
           xs = sort_key relevance (result_items (before @ after)) \<and>
           (\<forall>results. Inr results \<in> set before \<union> set after \<longrightarrow> set results \<subseteq> set xs)"
proof -
  from search_conforming [OF assms(1,2)] obtain s1 where
    run: "search env (PyStr q) s =
       (Inr (sort_key relevance (result_items (provider_outcomes q (providerInstances s) (world s)))), s1)"
    and tr: "trace s1 = trace s @ map (\<lambda>(name, p). SearchCall name q) (providerInstances s)"
    by blast
  let ?xs = "sort_key relevance (result_items (before @ after))"
  have xs: "sort_key relevance (result_items (provider_outcomes q (providerInstances s) (world s))) = ?xs"
    by (simp add: assms(3) result_items_skip)
  have "set results \<subseteq> set ?xs" if "Inr results \<in> set before \<union> set after" for results
  proof -
    from that have "Inr results \<in> set (before @ after)" by simp
    from answer_in_result_items [OF this] show ?thesis by simp
  qed
  with run tr xs show ?thesis by auto
qed

theorem search_skips_invalid_input_witness:
  "''firefox'' \<noteq> [] \<and>
   list_all (conforming_answer stub_env)
     (provider_outcomes ''firefox''
        (providerInstances (stub_state [(''p1'', P1), (''p3'', P3), (''p2'', P2)]))
        (world (stub_state [(''p1'', P1), (''p3'', P3), (''p2'', P2)]))) \<and>
   provider_outcomes ''firefox''
        (providerInstances (stub_state [(''p1'', P1), (''p3'', P3), (''p2'', P2)]))
        (world (stub_state [(''p1'', P1), (''p3'', P3), (''p2'', P2)]))
     = [Inr [[''relevance'' \<mapsto> 3], [''relevance'' \<mapsto> 1]]] @ Inl ValueError # [Inr [[''relevance'' \<mapsto> 2]]] \<and>
   (\<exists>s1. search stub_env (PyStr ''firefox'') (stub_state [(''p1'', P1), (''p3'', P3), (''p2'', P2)]) =
       (Inr [[''relevance'' \<mapsto> 1], [''relevance'' \<mapsto> 2], [''relevance'' \<mapsto> 3]], s1) \<and>
      trace s1 = [SearchCall ''p1'' ''firefox'', SearchCall ''p3'' ''firefox'', SearchCall ''p2'' ''firefox''])"
proof -
  let ?s = "stub_state [(''p1'', P1), (''p3'', P3), (''p2'', P2)]"
  let ?before = "[Inr [[''relevance'' \<mapsto> 3], [''relevance'' \<mapsto> (1::int)]]] :: (error + int item list) list"
  let ?after = "[Inr [[''relevance'' \<mapsto> (2::int)]]] :: (error + int item list) list"
  have ne: "''firefox'' \<noteq> []" by simp
  have out: "provider_outcomes ''firefox'' (providerInstances ?s) (world ?s) = ?before @ Inl ValueError # ?after"
    by (simp add: stub_state_def P1_def P2_def P3_def stub_provider_def)
  have conf: "list_all (conforming_answer stub_env) (provider_outcomes ''firefox'' (providerInstances ?s) (world ?s))"
    unfolding out by (simp add: stub_env_def)
  have sorted: "sort_key relevance (result_items (?before @ ?after)) =
      [[''relevance'' \<mapsto> 1], [''relevance'' \<mapsto> 2], [''relevance'' \<mapsto> (3::int)]]"
    by (simp add: result_items_def relevance_def)
  have tr: "trace ?s @ map (\<lambda>(name, p). SearchCall name ''firefox'') (providerInstances ?s) =
      [SearchCall ''p1'' ''firefox'', SearchCall ''p3'' ''firefox'', SearchCall ''p2'' ''firefox'']"
    by (simp add: stub_state_def)
  from search_skips_invalid_input [OF ne conf out] obtain xs s1 where
    "search stub_env (PyStr ''firefox'') ?s = (Inr xs, s1)"
    "trace s1 = trace ?s @ map (\<lambda>(name, p). SearchCall name ''firefox'') (providerInstances ?s)"
    "xs = sort_key relevance (result_items (?before @ ?after))"
    by blast
  with sorted tr have "\<exists>s1. search stub_env (PyStr ''firefox'') ?s =
       (Inr [[''relevance'' \<mapsto> 1], [''relevance'' \<mapsto> 2], [''relevance'' \<mapsto> 3]], s1) \<and>
      trace s1 = [SearchCall ''p1'' ''firefox'', SearchCall ''p3'' ''firefox'', SearchCall ''p2'' ''firefox'']"
    by auto
  with ne conf out show ?thesis by blast
qed

text \<open>
  C6: the assertion of \<open>search\<close> runs over \<open>items\<close>, the list collected before the current
  provider answered, not over \<open>results\<close>. So the results of the last provider that answers
  are never checked: whatever \<open>isItemDict\<close> is (also one that rejects every item), the
  item of a single provider is returned, and an item without \<open>relevance\<close> ends in the
  \<open>KeyError\<close> of the sort, not in an assertion failure.
\<close>

theorem search_never_checks_last_results:
  "fst (search (stub_env\<lparr>isItemDict := check\<rparr>) (PyStr ''firefox'') (stub_state [(''p2'', P2)]))
     = Inr [[''relevance'' \<mapsto> 2]] \<and>
   fst (search (stub_env\<lparr>isItemDict := check\<rparr>) (PyStr ''firefox'')
          (stub_state [(''p4'', stub_provider (Inr [Map.empty]))]))
     = Inl KeyError"
  by (simp add: search_def stub_state_def P2_def stub_provider_def emit_def sort_items_def relevance_def)

text \<open>
  C8: for a string identifier whose module imports, \<open>getProviderDescription\<close> raises
  \<open>NotImplementedError\<close> when the description lacks the key \<open>short\<close> or the key \<open>long\<close>,
  and returns the description otherwise.
\<close>

theorem getProviderDescription_keys:
  assumes "import_module env (provider_path name) = Inr providerModule"
  shows "fst (getProviderDescription env (PyStr name) s) =
           (if description providerModule ''short'' = None \<or> description providerModule ''long'' = None
            then Inl NotImplementedError
            else Inr (description providerModule))"
  using assms by (simp add: getProviderDescription_def Let_def)

theorem getProviderDescription_keys_witness:
  "import_module stub_env (provider_path ''p1'') =
     Inr (stub_module (Inr [[''relevance'' \<mapsto> 3], [''relevance'' \<mapsto> 1]])) \<and>
   fst (getProviderDescription stub_env (PyStr ''p1'') (stub_state [])) =
     Inr [''short'' \<mapsto> ''stub'', ''long'' \<mapsto> ''a stub provider'']"
  using getProviderDescription_keys [of stub_env "''p1''"
          "stub_module (Inr [[''relevance'' \<mapsto> 3], [''relevance'' \<mapsto> 1]])" "stub_state []"]
  by (simp add: stub_env_def stub_module_def provider_path_def)

lemma getProviderDescription_state:
  "snd (getProviderDescription env (PyStr x) s) = emit (ImportAttempt (provider_path x)) s"
  by (simp add: getProviderDescription_def Let_def split: sum.splits)

lemma getProviderDescription_good:
  "import_module env (provider_path x) = Inr m \<Longrightarrow> description m ''short'' \<noteq> None \<Longrightarrow>
   description m ''long'' \<noteq> None \<Longrightarrow>
   getProviderDescription env (PyStr x) s = (Inr (description m), emit (ImportAttempt (provider_path x)) s)"
  by (simp add: getProviderDescription_def Let_def)

lemma getProviderDescription_import_error:
  "import_module env (provider_path x) = Inl ImportError \<Longrightarrow>
   getProviderDescription env (PyStr x) s = (Inl (ProviderLoadError x), emit (ImportAttempt (provider_path x)) s)"
  by (simp add: getProviderDescription_def Let_def)

lemma describe_loop_first_failure:
  assumes "\<forall>x\<in>set before. \<exists>m. import_module env (provider_path x) = Inr m \<and>
             description m ''short'' \<noteq> None \<and> description m ''long'' \<noteq> None"
    and "import_module env (provider_path provider) = Inl ImportError"
  shows "describe_loop env (before @ provider # after) providerDict s =
           (Inl (ProviderLoadError provider),
            s\<lparr>trace := trace s @ map (ImportAttempt \<circ> provider_path) (before @ [provider])\<rparr>)"
  using assms
proof (induction before arbitrary: providerDict s)
  case Nil
  then show ?case
    by (simp add: getProviderDescription_import_error emit_def)
next
  case (Cons x before)
  from Cons.prems(1) obtain m where m: "import_module env (provider_path x) = Inr m"
    "description m ''short'' \<noteq> None" "description m ''long'' \<noteq> None"
    by auto
  from Cons.prems have rest: "\<forall>x\<in>set before. \<exists>m. import_module env (provider_path x) = Inr m \<and>
             description m ''short'' \<noteq> None \<and> description m ''long'' \<noteq> None"
    by simp
  show ?case
    using Cons.IH [OF rest Cons.prems(2)] getProviderDescription_good [OF m]
    by (simp add: emit_def)
qed

text \<open>
  C7, as the code has it: \<open>listProviders\<close> with descriptions looks the identifiers of the
  manifest up in order. When the import of one of them raises \<open>ImportError\<close> and the
  lookups of all identifiers before it succeed, \<open>listProviders\<close> itself raises the
  \<open>ProviderLoadError\<close> of that identifier: the enumeration stops there, the identifiers
  after it are not looked up (the trace ends with the failed import) and no mapping is
  returned.
\<close>

theorem listProviders_first_failure:
  assumes "providers_all env = before @ provider # after"
    and "\<forall>x\<in>set before. \<exists>m. import_module env (provider_path x) = Inr m \<and>
             description m ''short'' \<noteq> None \<and> description m ''long'' \<noteq> None"
    and "import_module env (provider_path provider) = Inl ImportError"
  shows "listProviders env True s =
           (Inl (ProviderLoadError provider),
            s\<lparr>trace := trace s @ ImportAttempt (provider_path ''__init__'') #
                 map (ImportAttempt \<circ> provider_path) (before @ [provider])\<rparr>)"
  using describe_loop_first_failure [OF assms(2,3), of after "[]"
          "emit (ImportAttempt (provider_path ''__init__'')) s"] assms(1)
  by (simp add: listProviders_def Let_def emit_def)

theorem listProviders_first_failure_witness:
  "providers_all stub_env = [''p1''] @ ''ghost'' # [''p2''] \<and>
   (\<exists>m. import_module stub_env (provider_path ''p1'') = Inr m \<and>
             description m ''short'' \<noteq> None \<and> description m ''long'' \<noteq> None) \<and>
   import_module stub_env (provider_path ''ghost'') = Inl ImportError \<and>
   listProviders stub_env True (stub_state []) =
     (Inl (ProviderLoadError ''ghost''),
      (stub_state [])\<lparr>trace := [ImportAttempt ''indelve.providers.__init__'',
          ImportAttempt ''indelve.providers.p1'', ImportAttempt ''indelve.providers.ghost'']\<rparr>)"
proof -
  have a: "providers_all stub_env = [''p1''] @ ''ghost'' # [''p2'']"
    by (simp add: stub_env_def)
  have b: "\<forall>x\<in>set [''p1'']. \<exists>m. import_module stub_env (provider_path x) = Inr m \<and>
             description m ''short'' \<noteq> None \<and> description m ''long'' \<noteq> None"
    by (simp add: stub_env_def stub_module_def provider_path_def)
  have c: "import_module stub_env (provider_path ''ghost'') = Inl ImportError"
    by (simp add: stub_env_def provider_path_def)
  from b have b': "\<exists>m. import_module stub_env (provider_path ''p1'') = Inr m \<and>
             description m ''short'' \<noteq> None \<and> description m ''long'' \<noteq> None"
    by simp
  have "listProviders stub_env True (stub_state []) =
     (Inl (ProviderLoadError ''ghost''),
      (stub_state [])\<lparr>trace := [ImportAttempt ''indelve.providers.__init__'',
          ImportAttempt ''indelve.providers.p1'', ImportAttempt ''indelve.providers.ghost'']\<rparr>)"
    using listProviders_first_failure [OF a b c, of "stub_state []"]
    by (simp add: stub_state_def provider_path_def)
  with a b' c show ?thesis by blast
qed

text \<open>
  C7, as the specification has it, fails: in \<open>stub_env\<close> the manifest is \<open>p1\<close>, \<open>ghost\<close>,
  \<open>p2\<close>; the description of \<open>p2\<close> can be looked up, yet \<open>listProviders\<close> ends with the
  error of \<open>ghost\<close> and produces no entry for \<open>p2\<close>.
\<close>

theorem listProviders_isolation_counterexample:
  "fst (listProviders stub_env True (stub_state [])) = Inl (ProviderLoadError ''ghost'') \<and>
   fst (getProviderDescription stub_env (PyStr ''p2'') (stub_state [])) =
     Inr [''short'' \<mapsto> ''stub'', ''long'' \<mapsto> ''a stub provider'']"
  by (simp add: listProviders_def getProviderDescription_def Let_def stub_env_def stub_module_def
        provider_path_def emit_def stub_state_def)

lemma emit_more [simp]:
  "emit e (s\<lparr>providerInstances := tbl\<rparr>) = (emit e s)\<lparr>providerInstances := tbl\<rparr>"
  by (simp add: emit_def)

text \<open>
  C10: with the empty list, construction passes the type check and raises
  \<open>NoProvidersError\<close>; the state it leaves is the one before with the table set to the
  empty dict, so nothing was imported and no warning was emitted. The omitted argument
  (\<open>None\<close>) is something else: it stands for the list of the manifest, and with the
  manifest of \<open>stub_env\<close> construction succeeds.
\<close>

theorem init_empty_list:
  "init env (PyList []) s = (Inl NoProvidersError, s\<lparr>providerInstances := []\<rparr>) \<and>
   init env PyNone s =
     init env (PyList (map PyStr (providers_all env))) (emit (ImportAttempt (provider_path ''__init__'')) s) \<and>
   fst (init stub_env PyNone (stub_state [])) = Inr ()"
proof (intro conjI)
  show "init env (PyList []) s = (Inl NoProvidersError, s\<lparr>providerInstances := []\<rparr>)"
    by (simp add: init_def init_body_def)
  show "init env PyNone s =
     init env (PyList (map PyStr (providers_all env))) (emit (ImportAttempt (provider_path ''__init__'')) s)"
    by (simp add: init_def listProviders_def Let_def)
  show "fst (init stub_env PyNone (stub_state [])) = Inr ()"
    by (simp add: init_def listProviders_def Let_def init_body_def stub_env_def stub_module_def
          stub_state_def provider_path_def emit_def)
qed

lemma load_loop_unimportable:
  assumes "\<forall>n\<in>set names. import_module env (provider_path n) = Inl ImportError \<or>
             import_module env (provider_path n) = Inl KeyError"
  shows "load_loop env (map PyStr names) s =
           (Inr (), s\<lparr>trace := trace s @ concat (map (\<lambda>n. [ImportAttempt (provider_path n), Warn n]) names)\<rparr>)"
  using assms
proof (induction names arbitrary: s)
  case Nil
  then show ?case by simp
next
  case (Cons n names)
  from Cons.prems have rest: "\<forall>n\<in>set names. import_module env (provider_path n) = Inl ImportError \<or>
             import_module env (provider_path n) = Inl KeyError"
    by simp
  from Cons.prems have "import_module env (provider_path n) = Inl ImportError \<or>
             import_module env (provider_path n) = Inl KeyError"
    by simp
  then show ?case
    using Cons.IH [OF rest] by (auto simp: Let_def emit_def)
qed

lemma init_body_table:
  "init_body env providers s = (Inr u, s1) \<Longrightarrow> providerInstances s1 \<noteq> []"
  by (auto simp: init_body_def split: prod.splits sum.splits if_splits)

lemma init_table:
  "init env providers s = (Inr u, s1) \<Longrightarrow> providerInstances s1 \<noteq> []"
  by (cases providers)
     (auto simp: init_def listProviders_def Let_def dest: init_body_table split: prod.splits sum.splits)

text \<open>
  C3, as the code has it: when the import of every identifier of the list raises
  \<open>ImportError\<close> or \<open>KeyError\<close>, construction imports each identifier in order, emits
  one warning with the identifier after each failed import, and then raises
  \<open>NoProvidersError\<close>. And whatever the argument, a construction that succeeds leaves a
  table that is not empty.
\<close>

theorem init_no_importable:
  assumes "\<forall>n\<in>set names. import_module env (provider_path n) = Inl ImportError \<or>
             import_module env (provider_path n) = Inl KeyError"
  shows "init env (PyList (map PyStr names)) s =
           (Inl NoProvidersError,
            s\<lparr>providerInstances := [],
               trace := trace s @ concat (map (\<lambda>n. [ImportAttempt (provider_path n), Warn n]) names)\<rparr>) \<and>
         (\<forall>providers s0 s1. init env providers s0 = (Inr (), s1) \<longrightarrow> providerInstances s1 \<noteq> [])"
proof
  show "init env (PyList (map PyStr names)) s =
           (Inl NoProvidersError,
            s\<lparr>providerInstances := [],
               trace := trace s @ concat (map (\<lambda>n. [ImportAttempt (provider_path n), Warn n]) names)\<rparr>)"
    using load_loop_unimportable [OF assms, of "s\<lparr>providerInstances := []\<rparr>"]
    by (simp add: init_def init_body_def)
  show "\<forall>providers s0 s1. init env providers s0 = (Inr (), s1) \<longrightarrow> providerInstances s1 \<noteq> []"
    using init_table by blast
qed

theorem init_no_importable_witness:
  "import_module stub_env (provider_path ''ghost'') = Inl ImportError \<and>
   import_module stub_env (provider_path ''phantom'') = Inl ImportError \<and>
   init stub_env (PyList [PyStr ''ghost'', PyStr ''phantom'']) (stub_state []) =
     (Inl NoProvidersError,
      (stub_state [])\<lparr>trace := [ImportAttempt ''indelve.providers.ghost'', Warn ''ghost'',
                                ImportAttempt ''indelve.providers.phantom'', Warn ''phantom'']\<rparr>) \<and>
   init stub_env (PyList [PyStr ''p2'']) (stub_state []) =
     (Inr (), \<lparr>providerInstances = [(''p2'', P2)], world = 0, trace = [ImportAttempt ''indelve.providers.p2'']\<rparr>) \<and>
   [(''p2'', P2)] \<noteq> []"
proof -
  have h: "\<forall>n\<in>set [''ghost'', ''phantom'']. import_module stub_env (provider_path n) = Inl ImportError \<or>
             import_module stub_env (provider_path n) = Inl KeyError"
    by (simp add: stub_env_def provider_path_def)
  have run: "init stub_env (PyList [PyStr ''p2'']) (stub_state []) =
     (Inr (), \<lparr>providerInstances = [(''p2'', P2)], world = 0, trace = [ImportAttempt ''indelve.providers.p2'']\<rparr>)"
    by (simp add: init_def init_body_def Let_def stub_env_def stub_module_def stub_state_def
          provider_path_def emit_def P2_def)
  have g: "import_module stub_env (provider_path ''ghost'') = Inl ImportError"
    "import_module stub_env (provider_path ''phantom'') = Inl ImportError"
    by (simp_all add: stub_env_def provider_path_def)
  have "init stub_env (PyList [PyStr ''ghost'', PyStr ''phantom'']) (stub_state []) =
     (Inl NoProvidersError,
      (stub_state [])\<lparr>trace := [ImportAttempt ''indelve.providers.ghost'', Warn ''ghost'',
                                ImportAttempt ''indelve.providers.phantom'', Warn ''phantom'']\<rparr>)"
    using init_no_importable [OF h, of "stub_state []"]
    by (simp add: stub_state_def provider_path_def)
  with g run show ?thesis by simp
qed

text \<open>
  C3, as the specification has it, fails: only \<open>ImportError\<close> and \<open>KeyError\<close> are
  caught. In \<open>faulty_env\<close> neither \<open>broken\<close> nor \<open>ghost\<close> is importable, yet construction
  from the two ends with the exception of \<open>broken\<close>: no warning is emitted, \<open>ghost\<close> is
  never tried, and the error is not \<open>NoProvidersError\<close>.
\<close>

theorem init_other_import_error_counterexample:
  "\<not> importable faulty_env ''broken'' \<and>
   \<not> importable faulty_env ''ghost'' \<and>
   init faulty_env (PyList [PyStr ''broken'', PyStr ''ghost'']) (stub_state []) =
     (Inl (OtherError ''SyntaxError''),
      \<lparr>providerInstances = [], world = 0, trace = [ImportAttempt ''indelve.providers.broken'']\<rparr>)"
  by (simp add: init_def init_body_def Let_def faulty_env_def stub_env_def
        stub_state_def emit_def provider_path_def)

lemma load_loop_total:
  assumes "\<forall>n\<in>set names.
             (case import_module env (provider_path n) of
                Inl e \<Rightarrow> e = ImportError \<or> e = KeyError
              | Inr providerModule \<Rightarrow> (\<forall>w. \<exists>inst. fst (Provider providerModule w) = Inr inst))"
  shows "\<exists>s1. load_loop env (map PyStr names) s = (Inr (), s1)"
  using assms
proof (induction names arbitrary: s)
  case Nil
  then show ?case by simp
next
  case (Cons n names)
  from Cons.prems have rest: "\<forall>n\<in>set names.
             (case import_module env (provider_path n) of
                Inl e \<Rightarrow> e = ImportError \<or> e = KeyError
              | Inr providerModule \<Rightarrow> (\<forall>w. \<exists>inst. fst (Provider providerModule w) = Inr inst))"
    and n: "case import_module env (provider_path n) of
                Inl e \<Rightarrow> e = ImportError \<or> e = KeyError
              | Inr providerModule \<Rightarrow> (\<forall>w. \<exists>inst. fst (Provider providerModule w) = Inr inst)"
    by simp_all
  show ?case
  proof (cases "import_module env (provider_path n)")
    case (Inl e)
    with n have "e = ImportError \<or> e = KeyError" by simp
    with Inl Cons.IH [OF rest] show ?thesis by (simp add: Let_def)
  next
    case (Inr m)
    with n obtain inst where "fst (Provider m (world s)) = Inr inst" by auto
    then obtain w where "Provider m (world s) = (Inr inst, w)"
      by (cases "Provider m (world s)") simp
    with Inr Cons.IH [OF rest] show ?thesis by (simp add: Let_def)
  qed
qed

lemma set_update_subset: "set (AList.update k v al) \<subseteq> insert (k, v) (set al)"
  by (induction al) auto

lemma load_loop_step:
  assumes "load_loop env (PyStr n # rest) s = (Inr u, s1)"
  shows "(\<not> importable env n \<and>
            load_loop env rest (emit (Warn n) (emit (ImportAttempt (provider_path n)) s)) = (Inr u, s1)) \<or>
         (importable env n \<and> (\<exists>m inst w. import_module env (provider_path n) = Inr m \<and>
            Provider m (world s) = (Inr inst, w) \<and>
            load_loop env rest
              ((emit (ImportAttempt (provider_path n)) s)
                 \<lparr>world := w, providerInstances := AList.update n inst (providerInstances s)\<rparr>) = (Inr u, s1)))"
  using assms
  by (auto simp: Let_def split: sum.splits prod.splits if_splits)

lemma load_loop_keys:
  "load_loop env (map PyStr names) s = (Inr u, s1) \<Longrightarrow>
   fst ` set (providerInstances s1) = fst ` set (providerInstances s) \<union> {n \<in> set names. importable env n}"
proof (induction names arbitrary: s)
  case Nil
  then show ?case by simp
next
  case (Cons n names)
  from Cons.prems have "load_loop env (PyStr n # map PyStr names) s = (Inr u, s1)" by simp
  from load_loop_step [OF this] show ?case
  proof (elim disjE conjE exE)
    assume "\<not> importable env n"
      and "load_loop env (map PyStr names) (emit (Warn n) (emit (ImportAttempt (provider_path n)) s)) = (Inr u, s1)"
    from this(1) Cons.IH [OF this(2)] show ?thesis by auto
  next
    fix m inst w
    assume "importable env n"
      and "load_loop env (map PyStr names)
              ((emit (ImportAttempt (provider_path n)) s)
                 \<lparr>world := w, providerInstances := AList.update n inst (providerInstances s)\<rparr>) = (Inr u, s1)"
    from this(1) Cons.IH [OF this(2)] show ?thesis
      by (auto simp: AList.dom_update)
  qed
qed

lemma load_loop_distinct:
  "load_loop env (map PyStr names) s = (Inr u, s1) \<Longrightarrow>
   distinct (map fst (providerInstances s)) \<Longrightarrow> distinct (map fst (providerInstances s1))"
proof (induction names arbitrary: s)
  case Nil
  then show ?case by simp
next
  case (Cons n names)
  from Cons.prems have "load_loop env (PyStr n # map PyStr names) s = (Inr u, s1)" by simp
  from load_loop_step [OF this] show ?case
  proof (elim disjE conjE exE)
    assume "load_loop env (map PyStr names) (emit (Warn n) (emit (ImportAttempt (provider_path n)) s)) = (Inr u, s1)"
    from Cons.IH [OF this] Cons.prems(2) show ?thesis by simp
  next
    fix m inst w
    assume "load_loop env (map PyStr names)
              ((emit (ImportAttempt (provider_path n)) s)
                 \<lparr>world := w, providerInstances := AList.update n inst (providerInstances s)\<rparr>) = (Inr u, s1)"
    from Cons.IH [OF this] Cons.prems(2) show ?thesis
      by (simp add: AList.distinct_update)
  qed
qed

lemma load_loop_instances:
  "load_loop env (map PyStr names) s = (Inr u, s1) \<Longrightarrow> (n, inst) \<in> set (providerInstances s1) \<Longrightarrow>
   (n, inst) \<in> set (providerInstances s) \<or>
   (\<exists>m w. import_module env (provider_path n) = Inr m \<and> fst (Provider m w) = Inr inst)"
proof (induction names arbitrary: s)
  case Nil
  then show ?case by simp
next
  case (Cons x names)
  from Cons.prems have "load_loop env (PyStr x # map PyStr names) s = (Inr u, s1)" by simp
  from load_loop_step [OF this] show ?case
  proof (elim disjE conjE exE)
    assume "load_loop env (map PyStr names) (emit (Warn x) (emit (ImportAttempt (provider_path x)) s)) = (Inr u, s1)"
    from Cons.IH [OF this Cons.prems(2)] show ?thesis by simp
  next
    fix m i w
    assume m: "import_module env (provider_path x) = Inr m" "Provider m (world s) = (Inr i, w)"
      and "load_loop env (map PyStr names)
              ((emit (ImportAttempt (provider_path x)) s)
                 \<lparr>world := w, providerInstances := AList.update x i (providerInstances s)\<rparr>) = (Inr u, s1)"
    from Cons.IH [OF this(3) Cons.prems(2)]
    have "(n, inst) \<in> set (AList.update x i (providerInstances s)) \<or>
       (\<exists>m w. import_module env (provider_path n) = Inr m \<and> fst (Provider m w) = Inr inst)"
      by simp
    then show ?thesis
    proof
      assume "(n, inst) \<in> set (AList.update x i (providerInstances s))"
      with set_update_subset [of x i "providerInstances s"]
      have "(n, inst) = (x, i) \<or> (n, inst) \<in> set (providerInstances s)" by auto
      then show ?thesis
      proof
        assume "(n, inst) = (x, i)"
        with m have "import_module env (provider_path n) = Inr m \<and> fst (Provider m (world s)) = Inr inst"
          by simp
        then show ?thesis by blast
      qed simp
    qed simp
  qed
qed

lemma load_loop_warnings:
  "load_loop env (map PyStr names) s = (Inr u, s1) \<Longrightarrow>
   filter is_warning (trace s1) =
     filter is_warning (trace s) @ map Warn (filter (\<lambda>n. \<not> importable env n) names)"
proof (induction names arbitrary: s)
  case Nil
  then show ?case by simp
next
  case (Cons n names)
  from Cons.prems have "load_loop env (PyStr n # map PyStr names) s = (Inr u, s1)" by simp
  from load_loop_step [OF this] show ?case
  proof (elim disjE conjE exE)
    assume "\<not> importable env n"
      and "load_loop env (map PyStr names) (emit (Warn n) (emit (ImportAttempt (provider_path n)) s)) = (Inr u, s1)"
    from this(1) Cons.IH [OF this(2)] show ?thesis by simp
  next
    fix m inst w
    assume "importable env n"
      and "load_loop env (map PyStr names)
              ((emit (ImportAttempt (provider_path n)) s)
                 \<lparr>world := w, providerInstances := AList.update n inst (providerInstances s)\<rparr>) = (Inr u, s1)"
    from this(1) Cons.IH [OF this(2)] show ?thesis by simp
  qed
qed

lemma init_list_success:
  "init env (PyList xs) s = (Inr u, s1) \<longleftrightarrow>
   load_loop env xs (s\<lparr>providerInstances := []\<rparr>) = (Inr u, s1) \<and> providerInstances s1 \<noteq> []"
  by (auto simp: init_def init_body_def split: prod.splits sum.splits if_splits)

text \<open>
  C2, as the code has it: take a list of identifiers each of which either fails to
  import (\<open>ImportError\<close> or \<open>KeyError\<close>) or loads (its module is found and its
  constructor returns an instance).
  If at least one is importable, construction succeeds. And whenever construction
  succeeds, the keys of the instance table are exactly the importable identifiers of the
  list, each key once and mapped to an instance that the constructor of its module
  returned, and the warnings emitted are those of the identifiers that are not
  importable, one for each, carrying the identifier, in the order of the list.
\<close>

theorem init_loads_importable:
  "((\<forall>n\<in>set names.
       (case import_module env (provider_path n) of
          Inl e \<Rightarrow> e = ImportError \<or> e = KeyError
        | Inr providerModule \<Rightarrow> (\<forall>w. \<exists>inst. fst (Provider providerModule w) = Inr inst))) \<and>
    (\<exists>n\<in>set names. importable env n)
    \<longrightarrow> fst (init env (PyList (map PyStr names)) s) = Inr ()) \<and>
   (\<forall>s1. init env (PyList (map PyStr names)) s = (Inr (), s1) \<longrightarrow>
      set (map fst (providerInstances s1)) = {n \<in> set names. importable env n} \<and>
      distinct (map fst (providerInstances s1)) \<and>
      (\<forall>(n, inst) \<in> set (providerInstances s1).
         \<exists>m w. import_module env (provider_path n) = Inr m \<and> fst (Provider m w) = Inr inst) \<and>
      filter is_warning (trace s1) =
        filter is_warning (trace s) @ map Warn (filter (\<lambda>n. \<not> importable env n) names))"
proof (intro conjI impI allI)
  assume h: "(\<forall>n\<in>set names.
       (case import_module env (provider_path n) of
          Inl e \<Rightarrow> e = ImportError \<or> e = KeyError
        | Inr providerModule \<Rightarrow> (\<forall>w. \<exists>inst. fst (Provider providerModule w) = Inr inst))) \<and>
    (\<exists>n\<in>set names. importable env n)"
  then obtain s1 where run: "load_loop env (map PyStr names) (s\<lparr>providerInstances := []\<rparr>) = (Inr (), s1)"
    using load_loop_total [of names env "s\<lparr>providerInstances := []\<rparr>"] by blast
  from load_loop_keys [OF run] h have "providerInstances s1 \<noteq> []" by auto
  with run show "fst (init env (PyList (map PyStr names)) s) = Inr ()"
    using init_list_success [of env "map PyStr names" s "()" s1] by simp
next
  fix s1 assume "init env (PyList (map PyStr names)) s = (Inr (), s1)"
  then have run: "load_loop env (map PyStr names) (s\<lparr>providerInstances := []\<rparr>) = (Inr (), s1)"
    by (simp add: init_list_success)
  from load_loop_keys [OF run]
  show "set (map fst (providerInstances s1)) = {n \<in> set names. importable env n}" by simp
  from load_loop_distinct [OF run] show "distinct (map fst (providerInstances s1))" by simp
  from load_loop_instances [OF run]
  show "\<forall>(n, inst) \<in> set (providerInstances s1).
         \<exists>m w. import_module env (provider_path n) = Inr m \<and> fst (Provider m w) = Inr inst"
    by auto
  from load_loop_warnings [OF run]
  show "filter is_warning (trace s1) =
        filter is_warning (trace s) @ map Warn (filter (\<lambda>n. \<not> importable env n) names)"
    by simp
qed

lemma stub_import [simp]:
  "import_module stub_env (provider_path ''p1'') =
     Inr (stub_module (Inr [[''relevance'' \<mapsto> 3], [''relevance'' \<mapsto> 1]]))"
  "import_module stub_env (provider_path ''p2'') = Inr (stub_module (Inr [[''relevance'' \<mapsto> 2]]))"
  "import_module stub_env (provider_path ''ghost'') = Inl ImportError"
  by (simp_all add: stub_env_def provider_path_def)

lemma stub_constructor [simp]: "Provider (stub_module answer) w = (Inr (stub_provider answer), w)"
  by (simp add: stub_module_def)

theorem init_loads_importable_witness:
  "importable stub_env ''p1'' \<and>
   init stub_env (PyList [PyStr ''p1'', PyStr ''ghost'', PyStr ''p2'']) (stub_state []) =
     (Inr (), \<lparr>providerInstances = [(''p1'', P1), (''p2'', P2)], world = 0,
              trace = [ImportAttempt ''indelve.providers.p1'', ImportAttempt ''indelve.providers.ghost'',
                       Warn ''ghost'', ImportAttempt ''indelve.providers.p2'']\<rparr>) \<and>
   {n \<in> set [''p1'', ''ghost'', ''p2'']. importable stub_env n} = {''p1'', ''p2''}"
proof -
  let ?names = "[''p1'', ''ghost'', ''p2'']"
  let ?s1 = "\<lparr>providerInstances = [(''p1'', P1), (''p2'', P2)], world = 0::nat,
              trace = [ImportAttempt ''indelve.providers.p1'', ImportAttempt ''indelve.providers.ghost'',
                       Warn ''ghost'', ImportAttempt ''indelve.providers.p2'']\<rparr>"
  have h: "(\<forall>n\<in>set ?names.
       (case import_module stub_env (provider_path n) of
          Inl e \<Rightarrow> e = ImportError \<or> e = KeyError
        | Inr providerModule \<Rightarrow> (\<forall>w. \<exists>inst. fst (Provider providerModule w) = Inr inst))) \<and>
    (\<exists>n\<in>set ?names. importable stub_env n)"
    by simp
  have imp: "importable stub_env ''p1''" by simp
  have ok: "fst (init stub_env (PyList (map PyStr ?names)) (stub_state [])) = Inr ()"
    using init_loads_importable [of ?names stub_env "stub_state []", THEN conjunct1, THEN mp, OF h] .
  have run: "init stub_env (PyList (map PyStr ?names)) (stub_state []) = (Inr (), ?s1)"
    by (simp add: init_def init_body_def Let_def stub_state_def emit_def P1_def P2_def)
       (simp add: provider_path_def)
  have keys: "set (map fst (providerInstances ?s1)) = {n \<in> set ?names. importable stub_env n}"
    using init_loads_importable [of ?names stub_env "stub_state []", THEN conjunct2, THEN spec, of ?s1, THEN mp, OF run, THEN conjunct1] .
  have "{n \<in> set ?names. importable stub_env n} = {''p1'', ''p2''}"
    unfolding keys [symmetric] by simp
  moreover from run have "init stub_env (PyList [PyStr ''p1'', PyStr ''ghost'', PyStr ''p2'']) (stub_state []) =
     (Inr (), ?s1)"
    by simp
  ultimately show ?thesis using imp by blast
qed

text \<open>
  C2, as the specification has it, fails: the constructor is called outside the
  \<open>try\<close>. In \<open>faulty_env\<close> both \<open>p1\<close> and \<open>ctorfail\<close> are importable, yet construction
  from the two ends with the exception of the constructor of \<open>ctorfail\<close>.
\<close>

theorem init_constructor_failure_counterexample:
  "importable faulty_env ''p1'' \<and>
   importable faulty_env ''ctorfail'' \<and>
   init faulty_env (PyList [PyStr ''p1'', PyStr ''ctorfail'']) (stub_state []) =
     (Inl (OtherError ''RuntimeError''),
      \<lparr>providerInstances = [(''p1'', P1)], world = 0,
       trace = [ImportAttempt ''indelve.providers.p1'', ImportAttempt ''indelve.providers.ctorfail'']\<rparr>)"
  by (simp add: init_def init_body_def Let_def faulty_env_def stub_env_def stub_module_def
        stub_state_def emit_def P1_def provider_path_def)

end
